theory Spec2Isabelle
  imports Main "HOL-Library.Char_ord" "HOL-Library.List_Lexorder"
begin

section \<open>Data model\<close>

text \<open>
  Python \<^verbatim>\<open>str\<close> values are modelled as \<^typ>\<open>string\<close>.  Python compares strings
  lexicographically by code point, a proper prefix being smaller; this is the order that
  \<^verbatim>\<open>Char_ord\<close> and \<^verbatim>\<open>List_Lexorder\<close> put on \<^typ>\<open>string\<close>.  All timestamps and
  file names handled here are ASCII.
\<close>

datatype error =
    IndexError
  | TypeError
  | ValueError
  | FileNotFoundError
  | UpstreamError string

record ccd_key =
  sector :: int
  camera :: int
  ccd :: int

text \<open>
  A row of the WCS catalog (\<^verbatim>\<open>wcs_catalog.py\<close>: columns sector, camera, ccd, begin, end,
  wcs).  The columns \<^verbatim>\<open>begin\<close> and \<^verbatim>\<open>end\<close> are called \<open>row_begin\<close> and \<open>row_end\<close>.
\<close>

record wcs_row = ccd_key +
  row_begin :: string
  row_end :: string
  wcs :: string

text \<open>
  A row of the frame returned by \<^verbatim>\<open>get_sector_dates\<close>: the index (the sector number) and
  the two columns.  A missing cell (pandas NaN) is \<open>None\<close>.
\<close>

record date_row =
  Index :: int
  d_begin :: "string option"
  d_end :: "string option"


section \<open>\<^verbatim>\<open>get_sector_dates\<close>\<close>

text \<open>
  \<^verbatim>\<open>db.groupby("sector")\<close>: one group per distinct sector, the groups in ascending order of
  the key (pandas sorts group keys by default), each group holding its rows in table order.
\<close>

definition groupby_sector :: "wcs_row list \<Rightarrow> (int \<times> wcs_row list) list" where
  "groupby_sector db =
     map (\<lambda>s. (s, filter (\<lambda>r. sector r = s) db)) (sort (remdups (map sector db)))"

text \<open>The aggregations \<^verbatim>\<open>.min()\<close> and \<^verbatim>\<open>.max()\<close> of a column; NaN on an empty column.\<close>

fun series_min :: "string list \<Rightarrow> string option" where
  "series_min [] = None"
| "series_min (v # vs) = Some (fold min vs v)"

fun series_max :: "string list \<Rightarrow> string option" where
  "series_max [] = None"
| "series_max (v # vs) = Some (fold max vs v)"

text \<open>\<^verbatim>\<open>begin.to_frame().join(end)\<close>: a left join on the index; a key missing on the right
  gives NaN.\<close>

definition join :: "(int \<times> string option) list \<Rightarrow> (int \<times> string option) list \<Rightarrow> date_row list" where
  "join left right =
     map (\<lambda>(s, b). \<lparr>Index = s, d_begin = b,
                     d_end = (case map_of right s of None \<Rightarrow> None | Some e \<Rightarrow> e)\<rparr>) left"

definition get_sector_dates :: "wcs_row list \<Rightarrow> date_row list" where
  "get_sector_dates db =
     (let begin_series = map (\<lambda>(s, g). (s, series_min (map row_begin g))) (groupby_sector db);
          end_series = map (\<lambda>(s, g). (s, series_max (map row_end g))) (groupby_sector db)
      in join begin_series end_series)"

section \<open>\<^verbatim>\<open>time_to_sector\<close>\<close>




text \<open>
  The functions \<^verbatim>\<open>get_sector_dates\<close> and \<^verbatim>\<open>time_to_sector\<close> are wrapped in
  \<^verbatim>\<open>lru_cache\<close>.  Both are functions of the loaded table and of their argument only,
  so the memoised value is the computed one; they are modelled as functions of the loaded
  table \<open>db\<close>.
\<close>







section \<open>\<^verbatim>\<open>update_wcs_catalog\<close>\<close>

text \<open>
  Modelled from the spec: \<^verbatim>\<open>imagelist.TessImage\<close> is not among the sources.  The code reads
  the attributes \<^verbatim>\<open>begin\<close> and \<^verbatim>\<open>end\<close> of an image and calls its method
  \<^verbatim>\<open>download_wcs\<close>; the spec derives an image from a listing row (file name, start, stop).
\<close>

record tess_image =
  img_filename :: string
  img_begin :: string
  img_end :: string

type_synonym key = "int \<times> int \<times> int"

text \<open>Python indexing \<^verbatim>\<open>xs[i]\<close>: a negative index counts from the end, an index out of
  range raises \<^verbatim>\<open>IndexError\<close>.\<close>

definition getitem :: "'a list \<Rightarrow> int \<Rightarrow> error + 'a" where
  "getitem xs i =
     (if 0 \<le> i \<and> i < int (length xs) then Inr (xs ! nat i)
      else if i < 0 \<and> - i \<le> int (length xs) then Inr (xs ! nat (int (length xs) + i))
      else Inl IndexError)"

text \<open>\<^verbatim>\<open>itertools.product(sectors, [1, 2, 3, 4], [1, 2, 3, 4])\<close>: the rightmost component
  runs fastest, the sectors are taken in the order of the argument.\<close>

definition iterator :: "int list \<Rightarrow> key list" where
  "iterator sectors = List.product sectors (List.product [1, 2, 3, 4] [1, 2, 3, 4])"

text \<open>
  The body of the loop, lines 40--49, for one triple.  The two collaborators are
  parameters: \<open>list_images\<close> (\<^verbatim>\<open>imagelist.list_images\<close>) and \<open>download_wcs\<close> (the
  download of an image's header followed by \<^verbatim>\<open>to_header_string(relax=True)\<close>); either
  may raise.  The order of evaluation is the source's: the middle image is indexed and
  downloaded before the first and the last image are read.
\<close>

definition row_of ::
  "(int \<Rightarrow> int \<Rightarrow> int \<Rightarrow> error + tess_image list) \<Rightarrow> (tess_image \<Rightarrow> error + string) \<Rightarrow>
   key \<Rightarrow> error + wcs_row" where
  "row_of list_images download_wcs k =
     (case k of (s, c, d) \<Rightarrow>
      (case list_images s c d of Inl e \<Rightarrow> Inl e | Inr images \<Rightarrow>
       (case getitem images (int (length images) div 2) of Inl e \<Rightarrow> Inl e | Inr mid \<Rightarrow>
        (case download_wcs mid of Inl e \<Rightarrow> Inl e | Inr header \<Rightarrow>
         (case getitem images 0 of Inl e \<Rightarrow> Inl e | Inr first \<Rightarrow>
          (case getitem images (- 1) of Inl e \<Rightarrow> Inl e | Inr final \<Rightarrow>
             Inr \<lparr>sector = s, camera = c, ccd = d, row_begin = img_begin first,
                  row_end = img_end final, wcs = header\<rparr>))))))"

text \<open>The \<^verbatim>\<open>for\<close> loop: \<open>summary\<close> is the list built so far; an exception leaves the
  loop at once.  The progress bar (\<^verbatim>\<open>tqdm\<close>) is taken to hand on the elements of the
  iterator unchanged; the number passed as its second argument plays no part here.\<close>

fun assemble ::
  "(int \<Rightarrow> int \<Rightarrow> int \<Rightarrow> error + tess_image list) \<Rightarrow> (tess_image \<Rightarrow> error + string) \<Rightarrow>
   wcs_row list \<Rightarrow> key list \<Rightarrow> error + wcs_row list" where
  "assemble list_images download_wcs summary [] = Inr summary"
| "assemble list_images download_wcs summary (k # ks) =
     (case row_of list_images download_wcs k of
        Inl e \<Rightarrow> Inl e
      | Inr data \<Rightarrow> assemble list_images download_wcs (summary @ [data]) ks)"

text \<open>
  \<^verbatim>\<open>update_wcs_catalog\<close>.  The persisted table \<^verbatim>\<open>WCS_CATALOG\<close> is the state: \<open>None\<close> when
  the file does not exist, otherwise its rows.  \<open>SECTORS\<close> is the package constant and
  \<open>requested\<close> is the default of lines 33--34.  The file is written once, after the loop;
  an exception in the loop leaves it as it was.
\<close>

definition requested :: "int \<Rightarrow> int list option \<Rightarrow> int list" where
  "requested SECTORS sectors_arg =
     (case sectors_arg of None \<Rightarrow> [1 .. SECTORS] | Some sectors \<Rightarrow> sectors)"

definition update_wcs_catalog ::
  "int \<Rightarrow> (int \<Rightarrow> int \<Rightarrow> int \<Rightarrow> error + tess_image list) \<Rightarrow> (tess_image \<Rightarrow> error + string) \<Rightarrow>
   int list option \<Rightarrow> wcs_row list option \<Rightarrow> (error + unit) \<times> wcs_row list option" where
  "update_wcs_catalog SECTORS list_images download_wcs sectors_arg wcs_catalog =
     (let sectors = requested SECTORS sectors_arg
      in case assemble list_images download_wcs [] (iterator sectors) of
           Inl e \<Rightarrow> (Inl e, wcs_catalog)
         | Inr summary \<Rightarrow> (Inr (), Some summary))"

text \<open>The key of a row, and the strict lexicographic order on keys: sector first, then
  camera, then ccd.\<close>

definition key_of :: "wcs_row \<Rightarrow> key" where
  "key_of r = (sector r, camera r, ccd r)"


section \<open>\<^verbatim>\<open>load_wcs_catalog\<close> and \<^verbatim>\<open>get_wcs\<close>\<close>










section \<open>The image listing (\<^verbatim>\<open>catalog.py\<close>)\<close>

text \<open>A record of the archive's answer: the columns \<^verbatim>\<open>access_url\<close>, \<^verbatim>\<open>t_min\<close> and
  \<^verbatim>\<open>t_max\<close>; the type \<open>'m\<close> is that of a modified Julian date.\<close>

record 'm tap_row =
  access_url :: string
  t_min :: 'm
  t_max :: 'm

text \<open>A row of a per-sector listing: columns filename, sector, camera, ccd, start, stop.\<close>

record ffi_row = ccd_key +
  filename :: string
  start :: string
  stop :: string

text \<open>What the module writes to its logger, in order of the calls.\<close>

datatype log_event =
    Fetching int int
  | Skipping int string
  | Writing string
  | SendingTAP int

text \<open>
  The world of \<^verbatim>\<open>catalog.py\<close>: the files on disk (path to content), the \<^verbatim>\<open>lru_cache\<close> of
  \<^verbatim>\<open>_mast_ffi_query\<close> (at most 128 entries, most recently used first) and the log.
\<close>

record 'm world =
  files :: "string \<rightharpoonup> ffi_row list"
  mast_cache :: "(int \<times> 'm tap_row list) list"
  log :: "log_event list"

text \<open>
  \<^verbatim>\<open>_mast_ffi_query\<close>.  \<open>tap\<close> is the archive: the asynchronous job and the retrieval of
  its results, which may fail.  A cached answer is returned without a query and without a log
  line.
\<close>

definition mast_ffi_query ::
  "(int \<Rightarrow> error + 'm tap_row list) \<Rightarrow> int \<Rightarrow> 'm world \<Rightarrow> (error + 'm tap_row list) \<times> 'm world" where
  "mast_ffi_query tap s w =
     (case map_of (mast_cache w) s of
        Some tbl \<Rightarrow>
          (Inr tbl, w\<lparr>mast_cache := (s, tbl) # filter (\<lambda>kv. fst kv \<noteq> s) (mast_cache w)\<rparr>)
      | None \<Rightarrow>
         (let w1 = w\<lparr>log := log w @ [SendingTAP s]\<rparr>
          in case tap s of
               Inl e \<Rightarrow> (Inl e, w1)
             | Inr tbl \<Rightarrow> (Inr tbl, w1\<lparr>mast_cache := take 128 ((s, tbl) # mast_cache w1)\<rparr>)))"

text \<open>\<^verbatim>\<open>str.split("/").str[-1]\<close>: what follows the last slash.\<close>

definition basename :: "string \<Rightarrow> string" where
  "basename url = rev (takeWhile (\<lambda>c. c \<noteq> CHR ''/'') (rev url))"

text \<open>
  The collaborators of \<^verbatim>\<open>_query_ffi_catalog\<close> that are library code: the three
  regular-expression extractions followed by \<^verbatim>\<open>astype(int)\<close> (\<open>None\<close> when the pattern
  does not match, on which the conversion raises), and \<open>mjd_iso\<close>, the ISO string of a modified
  Julian date.
\<close>

record 'm library =
  extract_sector :: "string \<Rightarrow> int option"
  extract_camera :: "string \<Rightarrow> int option"
  extract_ccd :: "string \<Rightarrow> int option"
  mjd_iso :: "'m \<Rightarrow> string"

text \<open>One row of the frame built in lines 40--47; \<^verbatim>\<open>.str.slice(stop=19)\<close> keeps the first
  19 characters.\<close>

definition frame_row :: "'m library \<Rightarrow> 'm tap_row \<Rightarrow> error + ffi_row" where
  "frame_row lib r =
     (let name = basename (access_url r)
      in case extract_sector lib name of None \<Rightarrow> Inl ValueError | Some s \<Rightarrow>
         (case extract_camera lib name of None \<Rightarrow> Inl ValueError | Some c \<Rightarrow>
          (case extract_ccd lib name of None \<Rightarrow> Inl ValueError | Some d \<Rightarrow>
             Inr \<lparr>sector = s, camera = c, ccd = d, filename = name,
                  start = take 19 (mjd_iso lib (t_min r)),
                  stop = take 19 (mjd_iso lib (t_max r))\<rparr>)))"

fun frame_rows :: "'m library \<Rightarrow> 'm tap_row list \<Rightarrow> error + ffi_row list" where
  "frame_rows lib [] = Inr []"
| "frame_rows lib (r # rs) =
     (case frame_row lib r of
        Inl e \<Rightarrow> Inl e
      | Inr x \<Rightarrow> (case frame_rows lib rs of Inl e \<Rightarrow> Inl e | Inr xs \<Rightarrow> Inr (x # xs)))"

text \<open>\<^verbatim>\<open>df.sort_values("filename")\<close>: ascending by file name.  (Rows with equal file names
  keep their order here; pandas does not promise an order among them.)\<close>

definition sort_values_filename :: "ffi_row list \<Rightarrow> ffi_row list" where
  "sort_values_filename df = sort_key filename df"

definition query_ffi_catalog ::
  "(int \<Rightarrow> error + 'm tap_row list) \<Rightarrow> 'm library \<Rightarrow> int \<Rightarrow> 'm world \<Rightarrow>
   (error + ffi_row list) \<times> 'm world" where
  "query_ffi_catalog tap lib s w =
     (case mast_ffi_query tap s w of
        (Inl e, w') \<Rightarrow> (Inl e, w')
      | (Inr tbl, w') \<Rightarrow>
         (case frame_rows lib tbl of
            Inl e \<Rightarrow> (Inl e, w')
          | Inr df \<Rightarrow> (Inr (sort_values_filename df), w')))"

text \<open>\<^verbatim>\<open>_ffi_catalog_path\<close>: the format \<^verbatim>\<open>{sector:04d}\<close> pads the decimal digits with zeros
  to four characters, the sign included.  \<open>DATADIR\<close> is the package constant.\<close>

definition digit_char :: "nat \<Rightarrow> char" where
  "digit_char n = ''0123456789'' ! n"

function decimal :: "nat \<Rightarrow> string" where
  "decimal n = (if n < 10 then [digit_char n] else decimal (n div 10) @ [digit_char (n mod 10)])"
  by pat_completeness auto
termination
  by (relation "measure (\<lambda>n. n)") auto

definition format_04d :: "int \<Rightarrow> string" where
  "format_04d i =
     (if i < 0
      then CHR ''-'' # replicate (3 - length (decimal (nat (- i)))) CHR ''0'' @ decimal (nat (- i))
      else replicate (4 - length (decimal (nat i))) CHR ''0'' @ decimal (nat i))"

definition ffi_catalog_path :: "string \<Rightarrow> int \<Rightarrow> string" where
  "ffi_catalog_path DATADIR s = DATADIR @ ''/tess-s'' @ format_04d s @ ''-ffi-catalog.parquet''"

text \<open>\<^verbatim>\<open>fetch_ffi_catalog\<close>: \<open>target_path\<close> is the default of lines 58--59, a path
  exists when the file system has an entry for it, and \<open>Inr None\<close> is the return value
  \<^verbatim>\<open>None\<close>.  Writing the file stores the frame under the path.\<close>

definition target_path :: "string \<Rightarrow> int \<Rightarrow> string option \<Rightarrow> string" where
  "target_path DATADIR s path_arg =
     (case path_arg of None \<Rightarrow> ffi_catalog_path DATADIR s | Some path \<Rightarrow> path)"

definition fetch_ffi_catalog ::
  "(int \<Rightarrow> error + 'm tap_row list) \<Rightarrow> 'm library \<Rightarrow> string \<Rightarrow> int \<Rightarrow> string option \<Rightarrow>
   'm world \<Rightarrow> (error + ffi_row list option) \<times> 'm world" where
  "fetch_ffi_catalog tap lib DATADIR s path_arg w =
     (let path = target_path DATADIR s path_arg
      in if files w path \<noteq> None
         then (Inr None, w\<lparr>log := log w @ [Skipping s path]\<rparr>)
         else (case query_ffi_catalog tap lib s (w\<lparr>log := log w @ [Writing path]\<rparr>) of
                 (Inl e, w') \<Rightarrow> (Inl e, w')
               | (Inr df, w') \<Rightarrow> (Inr (Some df), w'\<lparr>files := (files w')(path \<mapsto> df)\<rparr>)))"

text \<open>\<^verbatim>\<open>fetch_all_catalogs\<close>: the loop over \<^verbatim>\<open>range(1, SECTORS + 1)\<close>.  There is no
  exception handler, so an exception raised by a fetch ends the loop.\<close>

fun fetch_loop ::
  "(int \<Rightarrow> error + 'm tap_row list) \<Rightarrow> 'm library \<Rightarrow> string \<Rightarrow> int \<Rightarrow> int list \<Rightarrow>
   'm world \<Rightarrow> (error + unit) \<times> 'm world" where
  "fetch_loop tap lib DATADIR SECTORS [] w = (Inr (), w)"
| "fetch_loop tap lib DATADIR SECTORS (s # ss) w =
     (case fetch_ffi_catalog tap lib DATADIR s None (w\<lparr>log := log w @ [Fetching s SECTORS]\<rparr>) of
        (Inl e, w') \<Rightarrow> (Inl e, w')
      | (Inr _, w') \<Rightarrow> fetch_loop tap lib DATADIR SECTORS ss w')"

definition fetch_all_catalogs ::
  "(int \<Rightarrow> error + 'm tap_row list) \<Rightarrow> 'm library \<Rightarrow> string \<Rightarrow> int \<Rightarrow>
   'm world \<Rightarrow> (error + unit) \<times> 'm world" where
  "fetch_all_catalogs tap lib DATADIR SECTORS w = fetch_loop tap lib DATADIR SECTORS [1 .. SECTORS] w"

text \<open>The sectors whose fetch was started, in order: the \<open>Fetching\<close> lines of a log.\<close>

fun attempted :: "log_event list \<Rightarrow> int list" where
  "attempted [] = []"
| "attempted (Fetching s n # evs) = s # attempted evs"
| "attempted (ev # evs) = attempted evs"

text \<open>The sectors for which the archive was queried: the \<open>SendingTAP\<close> lines of a log.\<close>

fun queried :: "log_event list \<Rightarrow> int list" where
  "queried [] = []"
| "queried (SendingTAP s # evs) = s # queried evs"
| "queried (ev # evs) = queried evs"

text \<open>\<^verbatim>\<open>load_ffi_catalog\<close>, without its memo and its log line: the rows of the sector's
  file.\<close>

definition load_ffi_catalog :: "string \<Rightarrow> (string \<rightharpoonup> ffi_row list) \<Rightarrow> int \<Rightarrow> error + ffi_row list" where
  "load_ffi_catalog DATADIR fs s =
     (case fs (ffi_catalog_path DATADIR s) of None \<Rightarrow> Inl FileNotFoundError | Some df \<Rightarrow> Inr df)"

text \<open>Modelled from the spec: \<^verbatim>\<open>imagelist\<close> is not among the sources; the image of a
  listing row has the row's file name, and its \<^verbatim>\<open>begin\<close> and \<^verbatim>\<open>end\<close> are the row's
  \<^verbatim>\<open>start\<close> and \<^verbatim>\<open>stop\<close>.\<close>

definition image_of :: "ffi_row \<Rightarrow> tess_image" where
  "image_of r = \<lparr>img_filename = filename r, img_begin = start r, img_end = stop r\<rparr>"

text \<open>
  Modelled from the spec: \<^verbatim>\<open>imagelist.list_images\<close> is not among the sources.  The spec
  says that the listing of a triple is obtained from the image-listing catalog; here it is the
  rows of the sector's listing with that camera and ccd, in the order of the listing, each as
  an image whose \<^verbatim>\<open>begin\<close> and \<^verbatim>\<open>end\<close> are the row's \<^verbatim>\<open>start\<close> and \<^verbatim>\<open>stop\<close>.
\<close>

definition list_images ::
  "string \<Rightarrow> (string \<rightharpoonup> ffi_row list) \<Rightarrow> int \<Rightarrow> int \<Rightarrow> int \<Rightarrow> error + tess_image list" where
  "list_images DATADIR fs s c d =
     (case load_ffi_catalog DATADIR fs s of
        Inl e \<Rightarrow> Inl e
      | Inr df \<Rightarrow> Inr (map image_of (filter (\<lambda>r. camera r = c \<and> ccd r = d) df)))"

text \<open>Every listing file on disk is in ascending order of file name.\<close>

definition listings_sorted :: "(string \<rightharpoonup> ffi_row list) \<Rightarrow> bool" where
  "listings_sorted fs = (\<forall>path df. fs path = Some df \<longrightarrow> sorted (map filename df))"

section \<open>Example data\<close>

text \<open>A catalog in which sector 1 has two rows with different bounds.\<close>

definition three_rows :: "wcs_row list" where
  "three_rows =
     [\<lparr>sector = 2, camera = 1, ccd = 1, row_begin = ''2018-08-22 00:00:01'',
       row_end = ''2018-09-20 00:00:00'', wcs = ''h3''\<rparr>,
      \<lparr>sector = 1, camera = 1, ccd = 1, row_begin = ''2018-07-25 00:10:00'',
       row_end = ''2018-08-22 00:00:00'', wcs = ''h1''\<rparr>,
      \<lparr>sector = 1, camera = 1, ccd = 2, row_begin = ''2018-07-25 00:00:00'',
       row_end = ''2018-08-21 23:30:00'', wcs = ''h2''\<rparr>]"




definition fixed_header :: "tess_image \<Rightarrow> error + string" where
  "fixed_header i = Inr ''h''"

text \<open>A world with no file, an empty cache and an empty log.\<close>

definition empty_world :: "nat world" where
  "empty_world = \<lparr>files = Map.empty, mast_cache = [], log = []\<rparr>"

text \<open>
  A small archive and library: file names are two digits, the camera and the ccd; the
  listing of sector 1 has one image for each of the sixteen pairs, delivered in descending
  order of the names.  Dates are numbers, and their ISO strings have millisecond precision.
\<close>

definition digit_value :: "char \<Rightarrow> int option" where
  "digit_value c = map_of [(CHR ''1'', 1), (CHR ''2'', 2), (CHR ''3'', 3), (CHR ''4'', 4)] c"

definition demo_lib :: "nat library" where
  "demo_lib =
     \<lparr>extract_sector = (\<lambda>name. Some 1),
      extract_camera = (\<lambda>name. case name of [a, b] \<Rightarrow> digit_value a | _ \<Rightarrow> None),
      extract_ccd = (\<lambda>name. case name of [a, b] \<Rightarrow> digit_value b | _ \<Rightarrow> None),
      mjd_iso = (\<lambda>m. if m = 0 then ''2018-07-25 00:00:00.000'' else ''2018-07-25 00:30:00.000'')\<rparr>"

definition demo_table :: "nat tap_row list" where
  "demo_table =
     rev (map (\<lambda>(a, b). \<lparr>access_url = ''https://archive/ffi/'' @ [a, b], t_min = 0, t_max = 1\<rparr>)
            (List.product ''1234'' ''1234''))"

definition demo_tap :: "int \<Rightarrow> error + nat tap_row list" where
  "demo_tap s = (if s = 1 then Inr demo_table else Inl (UpstreamError ''unknown sector''))"



text \<open>A world in which the listing file of sector 1 exists.\<close>

definition stocked_world :: "nat world" where
  "stocked_world =
     \<lparr>files = [ffi_catalog_path ''data'' 1 \<mapsto>
                 [\<lparr>sector = 1, camera = 1, ccd = 1, filename = ''11'',
                   start = ''2018-07-25 00:00:00'', stop = ''2018-07-25 00:30:00''\<rparr>]],
      mast_cache = [], log = []\<rparr>"



section \<open>Properties of the sector dates\<close>

lemma map_of_keyed: "map_of (map (\<lambda>s. (s, G s)) ks) s = (if s \<in> set ks then Some (G s) else None)"
  by (induction ks) auto

lemma get_sector_dates_closed:
  "get_sector_dates db =
     map (\<lambda>s. \<lparr>Index = s,
                d_begin = series_min (map row_begin (filter (\<lambda>r. sector r = s) db)),
                d_end = series_max (map row_end (filter (\<lambda>r. sector r = s) db))\<rparr>)
         (sort (remdups (map sector db)))"
  by (simp add: get_sector_dates_def groupby_sector_def join_def Let_def comp_def map_of_keyed)

lemma series_min_Min:
  assumes "vs \<noteq> []"
  shows "series_min vs = Some (Min (set vs))"
proof (cases vs)
  case Nil
  with assms show ?thesis by simp
next
  case (Cons v ws)
  then show ?thesis using Min.set_eq_fold [of v ws] by simp
qed

lemma series_max_Max:
  assumes "vs \<noteq> []"
  shows "series_max vs = Some (Max (set vs))"
proof (cases vs)
  case Nil
  with assms show ?thesis by simp
next
  case (Cons v ws)
  then show ?thesis using Max.set_eq_fold [of v ws] by simp
qed

lemma group_nonempty: "s \<in> sector ` set db \<Longrightarrow> filter (\<lambda>r. sector r = s) db \<noteq> []"
  by (auto simp: filter_empty_conv)

lemma sector_dates_index: "map Index (get_sector_dates db) = sort (remdups (map sector db))"
  by (simp add: get_sector_dates_closed comp_def)

lemma sector_dates_row:
  assumes "row \<in> set (get_sector_dates db)"
  shows "d_begin row = Some (Min (row_begin ` {r \<in> set db. sector r = Index row})) \<and>
         d_end row = Some (Max (row_end ` {r \<in> set db. sector r = Index row}))"
proof -
  from assms obtain s where s: "s \<in> sector ` set db"
    and row: "row = \<lparr>Index = s,
              d_begin = series_min (map row_begin (filter (\<lambda>r. sector r = s) db)),
              d_end = series_max (map row_end (filter (\<lambda>r. sector r = s) db))\<rparr>"
    by (auto simp: get_sector_dates_closed)
  have "filter (\<lambda>r. sector r = s) db \<noteq> []" using s by (rule group_nonempty)
  then show ?thesis by (simp add: row series_min_Min series_max_Max)
qed

text \<open>
  Claim C9.  The frame returned by \<^verbatim>\<open>get_sector_dates\<close> has exactly one row for every
  sector that occurs in the catalog and no other row, the rows are indexed by the sector
  number in ascending order, and in the row of a sector \<open>begin\<close> is the minimum of the
  \<open>begin\<close> column and \<open>end\<close> the maximum of the \<open>end\<close> column over that sector's catalog
  rows.
\<close>

theorem get_sector_dates_min_max:
  "distinct (map Index (get_sector_dates db)) \<and>
   sorted (map Index (get_sector_dates db)) \<and>
   Index ` set (get_sector_dates db) = sector ` set db \<and>
   (\<forall>row \<in> set (get_sector_dates db).
      d_begin row = Some (Min (row_begin ` {r \<in> set db. sector r = Index row})) \<and>
      d_end row = Some (Max (row_end ` {r \<in> set db. sector r = Index row})))"
proof -
  have a: "distinct (map Index (get_sector_dates db))"
    by (simp add: sector_dates_index)
  have b: "sorted (map Index (get_sector_dates db))"
    by (simp add: sector_dates_index)
  have c: "Index ` set (get_sector_dates db) = sector ` set db"
    using arg_cong [OF sector_dates_index [of db], of set] by simp
  show ?thesis using a b c sector_dates_row [of _ db] by blast
qed

lemma three_rows_dates:
  "get_sector_dates three_rows =
     [\<lparr>Index = 1, d_begin = Some ''2018-07-25 00:00:00'', d_end = Some ''2018-08-22 00:00:00''\<rparr>,
      \<lparr>Index = 2, d_begin = Some ''2018-08-22 00:00:01'', d_end = Some ''2018-09-20 00:00:00''\<rparr>]"
  by (simp add: get_sector_dates_closed three_rows_def)

theorem get_sector_dates_min_max_witness:
  "\<lparr>Index = 1, d_begin = Some ''2018-07-25 00:00:00'', d_end = Some ''2018-08-22 00:00:00''\<rparr>
     \<in> set (get_sector_dates three_rows) \<and>
   Some ''2018-07-25 00:00:00'' = Some (Min (row_begin ` {r \<in> set three_rows. sector r = 1})) \<and>
   Some ''2018-08-22 00:00:00'' = Some (Max (row_end ` {r \<in> set three_rows. sector r = 1}))"
proof -
  let ?row = "\<lparr>Index = 1, d_begin = Some ''2018-07-25 00:00:00'',
                d_end = Some ''2018-08-22 00:00:00''\<rparr>"
  have mem: "?row \<in> set (get_sector_dates three_rows)"
    by (simp add: three_rows_dates)
  from get_sector_dates_min_max [of three_rows] mem
  have "d_begin ?row = Some (Min (row_begin ` {r \<in> set three_rows. sector r = Index ?row})) \<and>
        d_end ?row = Some (Max (row_end ` {r \<in> set three_rows. sector r = Index ?row}))"
    by blast
  with mem show ?thesis by simp
qed

section \<open>Properties of \<^verbatim>\<open>time_to_sector\<close>\<close>








section \<open>Properties of \<^verbatim>\<open>get_wcs\<close>\<close>








section \<open>Properties of \<^verbatim>\<open>update_wcs_catalog\<close>\<close>

lemma row_of_Inr:
  assumes "row_of li dl (s, c, d) = Inr r"
  shows "key_of r = (s, c, d) \<and>
         (\<exists>images. li s c d = Inr images \<and> images \<noteq> [] \<and>
            row_begin r = img_begin (hd images) \<and> row_end r = img_end (last images) \<and>
            dl (images ! (length images div 2)) = Inr (wcs r))"
proof -
  from assms obtain images where im: "li s c d = Inr images"
    by (auto simp: row_of_def split: sum.splits)
  have ne: "images \<noteq> []"
    using assms im by (auto simp: row_of_def getitem_def split: sum.splits)
  then have len: "0 < length images" by simp
  have g0: "getitem images 0 = Inr (hd images)"
    using ne by (simp add: getitem_def hd_conv_nth)
  have one: "1 \<le> length images" using ne by (cases images) simp_all
  then have "nat (int (length images) - 1) = length images - 1" by simp
  then have g1: "getitem images (- 1) = Inr (last images)"
    using ne one by (simp add: getitem_def last_conv_nth)
  have "nat (int (length images) div 2) = length images div 2"
    by (simp add: nat_div_distrib)
  moreover have "int (length images) div 2 < int (length images)" using len by linarith
  moreover have "0 \<le> int (length images) div 2" by simp
  ultimately have gm:
    "getitem images (int (length images) div 2) = Inr (images ! (length images div 2))"
    by (simp add: getitem_def)
  show ?thesis
    using assms im ne g0 g1 gm by (auto simp: row_of_def key_of_def split: sum.splits)
qed

lemma assemble_Inr:
  assumes "assemble li dl summary ks = Inr rows"
  shows "\<exists>new. rows = summary @ new \<and> list_all2 (\<lambda>k r. row_of li dl k = Inr r) ks new"
  using assms
proof (induction ks arbitrary: summary)
  case Nil
  then show ?case by simp
next
  case (Cons k ks)
  from Cons.prems obtain r where r: "row_of li dl k = Inr r"
    and rest: "assemble li dl (summary @ [r]) ks = Inr rows"
    by (auto split: sum.splits)
  from Cons.IH [OF rest] obtain new where
    "rows = (summary @ [r]) @ new" "list_all2 (\<lambda>k r. row_of li dl k = Inr r) ks new"
    by blast
  with r have "rows = summary @ (r # new) \<and> list_all2 (\<lambda>k r. row_of li dl k = Inr r) (k # ks) (r # new)"
    by simp
  then show ?case by blast
qed


lemma rows_keys:
  assumes "list_all2 (\<lambda>k r. row_of li dl k = Inr r) ks rows"
  shows "map key_of rows = ks"
  using assms
proof (induction rule: list_all2_induct)
  case Nil
  show ?case by simp
next
  case (Cons k ks r rows)
  obtain s c d where "k = (s, c, d)" by (cases k)
  with Cons show ?case using row_of_Inr [of li dl s c d r] by simp
qed

lemma update_success:
  assumes "fst (update_wcs_catalog SECTORS li dl arg old) = Inr ()"
  shows "\<exists>rows. snd (update_wcs_catalog SECTORS li dl arg old) = Some rows \<and>
           assemble li dl [] (iterator (requested SECTORS arg)) = Inr rows \<and>
           list_all2 (\<lambda>k r. row_of li dl k = Inr r) (iterator (requested SECTORS arg)) rows \<and>
           map key_of rows = iterator (requested SECTORS arg)"
proof -
  from assms obtain rows where
    a: "assemble li dl [] (iterator (requested SECTORS arg)) = Inr rows"
    by (auto simp: update_wcs_catalog_def Let_def split: sum.splits)
  then have s: "snd (update_wcs_catalog SECTORS li dl arg old) = Some rows"
    by (simp add: update_wcs_catalog_def Let_def)
  from assemble_Inr [OF a] have l: "list_all2 (\<lambda>k r. row_of li dl k = Inr r) (iterator (requested SECTORS arg)) rows"
    by simp
  from a s l rows_keys [OF l] show ?thesis by blast
qed

lemma update_failure:
  assumes "fst (update_wcs_catalog SECTORS li dl arg old) = Inl e"
  shows "snd (update_wcs_catalog SECTORS li dl arg old) = old"
  using assms by (auto simp: update_wcs_catalog_def Let_def split: sum.splits)

lemma length_iterator: "length (iterator sectors) = length sectors * 4 * 4"
  by (simp add: iterator_def)






lemma rows_from_keys:
  assumes "list_all2 (\<lambda>k r. row_of li dl k = Inr r) ks rows" and "r \<in> set rows"
  shows "\<exists>k \<in> set ks. row_of li dl k = Inr r"
  using assms by (induction rule: list_all2_induct) auto

lemma update_rows_bounds:
  assumes "fst (update_wcs_catalog SECTORS li dl arg old) = Inr ()"
  shows "\<exists>rows. snd (update_wcs_catalog SECTORS li dl arg old) = Some rows \<and>
           (\<forall>r \<in> set rows. \<exists>images.
              li (sector r) (camera r) (ccd r) = Inr images \<and> images \<noteq> [] \<and>
              row_begin r = img_begin (hd images) \<and> row_end r = img_end (last images) \<and>
              dl (images ! (length images div 2)) = Inr (wcs r))"
proof -
  from update_success [OF assms] obtain rows where
    s: "snd (update_wcs_catalog SECTORS li dl arg old) = Some rows" and
    l: "list_all2 (\<lambda>k r. row_of li dl k = Inr r) (iterator (requested SECTORS arg)) rows"
    by blast
  have "\<exists>images. li (sector r) (camera r) (ccd r) = Inr images \<and> images \<noteq> [] \<and>
              row_begin r = img_begin (hd images) \<and> row_end r = img_end (last images) \<and>
              dl (images ! (length images div 2)) = Inr (wcs r)" if "r \<in> set rows" for r
  proof -
    from rows_from_keys [OF l that] obtain k where k: "row_of li dl k = Inr r" by blast
    obtain s c d where "k = (s, c, d)" by (cases k)
    with k have "row_of li dl (s, c, d) = Inr r" by simp
    from row_of_Inr [OF this] show ?thesis by (auto simp: key_of_def)
  qed
  with s show ?thesis by blast
qed









section \<open>Properties of the listing fetch\<close>

lemma attempted_append: "attempted (xs @ ys) = attempted xs @ attempted ys"
  by (induction xs rule: attempted.induct) simp_all

lemma queried_append: "queried (xs @ ys) = queried xs @ queried ys"
  by (induction xs rule: queried.induct) simp_all

lemma mast_ffi_query_frame:
  assumes "mast_ffi_query tap s w = (r, w')"
  shows "files w' = files w \<and> attempted (log w') = attempted (log w)"
  using assms
  by (auto simp: mast_ffi_query_def Let_def attempted_append split: option.splits sum.splits)

lemma sorted_sort_values: "sorted (map filename (sort_values_filename df))"
  by (simp add: sort_values_filename_def)

lemma query_ffi_catalog_frame:
  assumes "query_ffi_catalog tap lib s w = (r, w')"
  shows "files w' = files w \<and> attempted (log w') = attempted (log w) \<and>
         (\<forall>df. r = Inr df \<longrightarrow> sorted (map filename df))"
proof -
  obtain r0 w0 where m: "mast_ffi_query tap s w = (r0, w0)"
    by (cases "mast_ffi_query tap s w")
  note f = mast_ffi_query_frame [OF m]
  from assms m have "w' = w0"
    by (auto simp: query_ffi_catalog_def split: sum.splits)
  moreover from assms m have "\<forall>df. r = Inr df \<longrightarrow> sorted (map filename df)"
    by (auto simp: query_ffi_catalog_def sorted_sort_values split: sum.splits)
  ultimately show ?thesis using f by simp
qed

lemma fetch_ffi_catalog_frame:
  assumes "fetch_ffi_catalog tap lib DATADIR s path_arg w = (r, w')"
  shows "attempted (log w') = attempted (log w) \<and>
         (listings_sorted (files w) \<longrightarrow> listings_sorted (files w'))"
proof (cases "files w (target_path DATADIR s path_arg) \<noteq> None")
  case True
  with assms have "w' = w\<lparr>log := log w @ [Skipping s (target_path DATADIR s path_arg)]\<rparr>"
    by (auto simp: fetch_ffi_catalog_def Let_def)
  then show ?thesis by (simp add: attempted_append)
next
  case False
  let ?w1 = "w\<lparr>log := log w @ [Writing (target_path DATADIR s path_arg)]\<rparr>"
  obtain r0 w0 where q: "query_ffi_catalog tap lib s ?w1 = (r0, w0)"
    by (cases "query_ffi_catalog tap lib s ?w1")
  note f = query_ffi_catalog_frame [OF q]
  have a1: "attempted (log ?w1) = attempted (log w)" by (simp add: attempted_append)
  show ?thesis
  proof (cases r0)
    case (Inl e)
    with assms False q have "w' = w0" by (auto simp: fetch_ffi_catalog_def Let_def)
    with f a1 show ?thesis by simp
  next
    case (Inr df)
    with assms False q
    have w': "w' = w0\<lparr>files := (files w0)(target_path DATADIR s path_arg \<mapsto> df)\<rparr>"
      by (auto simp: fetch_ffi_catalog_def Let_def)
    from Inr f have "sorted (map filename df)" by simp
    with f a1 show ?thesis unfolding w' by (auto simp: listings_sorted_def)
  qed
qed

lemma fetch_loop_trace:
  assumes "fetch_loop tap lib DATADIR SECTORS ss w = (r, w')"
  shows "(listings_sorted (files w) \<longrightarrow> listings_sorted (files w')) \<and>
         (r = Inr () \<longrightarrow> attempted (log w') = attempted (log w) @ ss) \<and>
         (\<forall>e. r = Inl e \<longrightarrow>
            (\<exists>pre k post wk. ss = pre @ k # post \<and>
               attempted (log w') = attempted (log w) @ pre @ [k] \<and>
               fst (fetch_ffi_catalog tap lib DATADIR k None wk) = Inl e))"
  using assms
proof (induction ss arbitrary: w)
  case Nil
  then show ?case by auto
next
  case (Cons s ss)
  let ?w1 = "w\<lparr>log := log w @ [Fetching s SECTORS]\<rparr>"
  obtain r0 w0 where f: "fetch_ffi_catalog tap lib DATADIR s None ?w1 = (r0, w0)"
    by (cases "fetch_ffi_catalog tap lib DATADIR s None ?w1")
  note fr = fetch_ffi_catalog_frame [OF f]
  have a0: "attempted (log w0) = attempted (log w) @ [s]"
    using fr by (simp add: attempted_append)
  have s0: "listings_sorted (files w) \<longrightarrow> listings_sorted (files w0)"
    using fr by simp
  show ?case
  proof (cases r0)
    case (Inl e)
    with Cons.prems f have r: "r = Inl e" "w' = w0" by simp_all
    have "s # ss = [] @ s # ss \<and> attempted (log w') = attempted (log w) @ [] @ [s] \<and>
          fst (fetch_ffi_catalog tap lib DATADIR s None ?w1) = Inl e"
      using a0 r f Inl by simp
    then have "\<exists>pre k post wk. s # ss = pre @ k # post \<and>
               attempted (log w') = attempted (log w) @ pre @ [k] \<and>
               fst (fetch_ffi_catalog tap lib DATADIR k None wk) = Inl e"
      by blast
    with r s0 show ?thesis by simp
  next
    case (Inr x)
    with Cons.prems f have rest: "fetch_loop tap lib DATADIR SECTORS ss w0 = (r, w')" by simp
    note ih = Cons.IH [OF rest]
    have one: "listings_sorted (files w) \<longrightarrow> listings_sorted (files w')"
      using ih s0 by blast
    have two: "r = Inr () \<longrightarrow> attempted (log w') = attempted (log w) @ s # ss"
      using ih a0 by simp
    have three: "\<exists>pre k post wk. s # ss = pre @ k # post \<and>
               attempted (log w') = attempted (log w) @ pre @ [k] \<and>
               fst (fetch_ffi_catalog tap lib DATADIR k None wk) = Inl e" if "r = Inl e" for e
    proof -
      from ih that obtain pre k post wk where
        p: "ss = pre @ k # post" "attempted (log w') = attempted (log w0) @ pre @ [k]"
          "fst (fetch_ffi_catalog tap lib DATADIR k None wk) = Inl e"
        by blast
      then have "s # ss = (s # pre) @ k # post \<and>
               attempted (log w') = attempted (log w) @ (s # pre) @ [k] \<and>
               fst (fetch_ffi_catalog tap lib DATADIR k None wk) = Inl e"
        using a0 by simp
      then show ?thesis by blast
    qed
    from one two three show ?thesis by blast
  qed
qed


text \<open>
  Claim C8.  When the target path of a sector's listing exists, \<^verbatim>\<open>fetch_ffi_catalog\<close>
  returns \<^verbatim>\<open>None\<close>, leaves every file as it is, does not touch the query cache, adds no
  query to the log, and its outcome does not depend on the archive or the library at all.
\<close>

theorem fetch_ffi_catalog_skips_existing:
  assumes "files w (target_path DATADIR s path_arg) \<noteq> None"
  shows "fst (fetch_ffi_catalog tap lib DATADIR s path_arg w) = Inr None \<and>
         files (snd (fetch_ffi_catalog tap lib DATADIR s path_arg w)) = files w \<and>
         mast_cache (snd (fetch_ffi_catalog tap lib DATADIR s path_arg w)) = mast_cache w \<and>
         queried (log (snd (fetch_ffi_catalog tap lib DATADIR s path_arg w))) = queried (log w) \<and>
         fetch_ffi_catalog tap' lib' DATADIR s path_arg w =
           fetch_ffi_catalog tap lib DATADIR s path_arg w"
  using assms by (simp add: fetch_ffi_catalog_def Let_def queried_append)

theorem fetch_ffi_catalog_skips_existing_witness:
  "files stocked_world (target_path ''data'' 1 None) \<noteq> None \<and>
   fst (fetch_ffi_catalog demo_tap demo_lib ''data'' 1 None stocked_world) = Inr None \<and>
   files (snd (fetch_ffi_catalog demo_tap demo_lib ''data'' 1 None stocked_world))
     = files stocked_world \<and>
   queried (log (snd (fetch_ffi_catalog demo_tap demo_lib ''data'' 1 None stocked_world))) = []"
proof -
  have a: "files stocked_world (target_path ''data'' 1 None) \<noteq> None"
    by (simp add: stocked_world_def target_path_def)
  have "queried (log stocked_world) = []" by (simp add: stocked_world_def)
  with fetch_ffi_catalog_skips_existing [OF a, of demo_tap demo_lib] a show ?thesis by simp
qed






section \<open>The bounds of a catalog row\<close>

lemma list_images_sorted:
  assumes "listings_sorted fs" and "list_images DATADIR fs s c d = Inr images"
  shows "sorted (map img_filename images)"
proof -
  from assms(2) obtain df where df: "fs (ffi_catalog_path DATADIR s) = Some df"
    and im: "images = map image_of (filter (\<lambda>r. camera r = c \<and> ccd r = d) df)"
    by (auto simp: list_images_def load_ffi_catalog_def split: option.splits)
  from assms(1) df have "sorted (map filename df)" by (simp add: listings_sorted_def)
  then have "sorted (map filename (filter (\<lambda>r. camera r = c \<and> ccd r = d) df))"
    by (rule sorted_filter)
  moreover have "map img_filename images = map filename (filter (\<lambda>r. camera r = c \<and> ccd r = d) df)"
    by (simp add: im image_of_def comp_def)
  ultimately show ?thesis by simp
qed

lemma fetch_all_catalogs_sorted:
  assumes "files w0 = Map.empty" and "fetch_all_catalogs tap lib DATADIR N w0 = (r, w)"
  shows "listings_sorted (files w)"
proof -
  have "listings_sorted (files w0)" by (simp add: assms(1) listings_sorted_def)
  with fetch_loop_trace [OF assms(2) [unfolded fetch_all_catalogs_def]] show ?thesis by blast
qed






text \<open>
  The two places together, under the model of \<^verbatim>\<open>imagelist.list_images\<close>.  Let the listing
  files be those written by \<^verbatim>\<open>fetch_all_catalogs\<close> on an empty disk, and let
  \<^verbatim>\<open>update_wcs_catalog\<close> read the listing of a triple from them.  If the build succeeds,
  then for every row of the written table the listing of the row's triple is not empty and is
  in ascending order of file name, and the row's bounds and header come from its first, last
  and middle image.
\<close>

lemma listing_bounds_end_to_end:
  assumes "files w0 = Map.empty"
    and "fetch_all_catalogs tap lib DATADIR N w0 = (Inr (), w)"
    and "fst (update_wcs_catalog SECTORS (list_images DATADIR (files w)) dl arg old) = Inr ()"
  shows "\<exists>rows. snd (update_wcs_catalog SECTORS (list_images DATADIR (files w)) dl arg old)
                  = Some rows \<and>
           (\<forall>r \<in> set rows. \<exists>images.
              list_images DATADIR (files w) (sector r) (camera r) (ccd r) = Inr images \<and>
              images \<noteq> [] \<and> sorted (map img_filename images) \<and>
              row_begin r = img_begin (hd images) \<and> row_end r = img_end (last images) \<and>
              dl (images ! (length images div 2)) = Inr (wcs r))"
proof -
  have so: "listings_sorted (files w)"
    using assms(1,2) by (rule fetch_all_catalogs_sorted)
  from update_rows_bounds [OF assms(3)] obtain rows where
    s: "snd (update_wcs_catalog SECTORS (list_images DATADIR (files w)) dl arg old) = Some rows"
    and b: "\<forall>r \<in> set rows. \<exists>images.
              list_images DATADIR (files w) (sector r) (camera r) (ccd r) = Inr images \<and>
              images \<noteq> [] \<and>
              row_begin r = img_begin (hd images) \<and> row_end r = img_end (last images) \<and>
              dl (images ! (length images div 2)) = Inr (wcs r)"
    by blast
  have "\<exists>images.
              list_images DATADIR (files w) (sector r) (camera r) (ccd r) = Inr images \<and>
              images \<noteq> [] \<and> sorted (map img_filename images) \<and>
              row_begin r = img_begin (hd images) \<and> row_end r = img_end (last images) \<and>
              dl (images ! (length images div 2)) = Inr (wcs r)" if "r \<in> set rows" for r
  proof -
    from b that obtain images where
      i: "list_images DATADIR (files w) (sector r) (camera r) (ccd r) = Inr images"
        "images \<noteq> []" "row_begin r = img_begin (hd images)" "row_end r = img_end (last images)"
        "dl (images ! (length images div 2)) = Inr (wcs r)"
      by blast
    from list_images_sorted [OF so i(1)] i show ?thesis by blast
  qed
  with s show ?thesis by blast
qed

lemma demo_fetch_ok:
  "fst (fetch_all_catalogs demo_tap demo_lib ''data'' 1 empty_world) = Inr ()"
  by code_simp

lemma demo_update_ok:
  "fst (update_wcs_catalog 1 (list_images ''data''
          (files (snd (fetch_all_catalogs demo_tap demo_lib ''data'' 1 empty_world))))
        fixed_header None None) = Inr ()"
  by code_simp

lemma listing_bounds_example:
  "files empty_world = Map.empty \<and>
   fetch_all_catalogs demo_tap demo_lib ''data'' 1 empty_world
     = (Inr (), snd (fetch_all_catalogs demo_tap demo_lib ''data'' 1 empty_world)) \<and>
   fst (update_wcs_catalog 1 (list_images ''data''
          (files (snd (fetch_all_catalogs demo_tap demo_lib ''data'' 1 empty_world))))
        fixed_header None None) = Inr () \<and>
   (\<exists>rows. snd (update_wcs_catalog 1 (list_images ''data''
                  (files (snd (fetch_all_catalogs demo_tap demo_lib ''data'' 1 empty_world))))
                fixed_header None None) = Some rows \<and>
      length rows = 16 \<and>
      (\<forall>r \<in> set rows. \<exists>images.
          list_images ''data''
            (files (snd (fetch_all_catalogs demo_tap demo_lib ''data'' 1 empty_world)))
            (sector r) (camera r) (ccd r) = Inr images \<and>
          images \<noteq> [] \<and> sorted (map img_filename images) \<and>
          row_begin r = img_begin (hd images) \<and> row_end r = img_end (last images) \<and>
          fixed_header (images ! (length images div 2)) = Inr (wcs r)))"
proof -
  let ?w = "snd (fetch_all_catalogs demo_tap demo_lib ''data'' 1 empty_world)"
  have a: "files empty_world = Map.empty" by (simp add: empty_world_def)
  have b: "fetch_all_catalogs demo_tap demo_lib ''data'' 1 empty_world = (Inr (), ?w)"
    using demo_fetch_ok by (simp add: prod_eq_iff)
  note c = demo_update_ok
  from update_success [OF c] have
    "\<forall>rows. snd (update_wcs_catalog 1 (list_images ''data'' (files ?w)) fixed_header None None)
        = Some rows \<longrightarrow> length rows = 16"
    using length_iterator [of "requested 1 None"]
    by (auto simp: requested_def upto.simps dest: arg_cong [where f = length])
  with listing_bounds_end_to_end [OF a b c] a b c show ?thesis by auto
qed

section \<open>The form of the compared strings\<close>





end
